theory Spec2Isabelle
  imports Main "HOL-Library.Word"
begin

unbundle bit_operations_syntax

section \<open>MesaFS: the on-disk volume format and the tools that write it\<close>

text \<open>
  The development embeds three C programs of the repository:
  \<^item> \<^verbatim>\<open>mesafs-format.c\<close> (the Volume Initializer), from the point where the partition's
    sector count is known;
  \<^item> \<^verbatim>\<open>inject-file.c\<close> (the File Injector), from the point where block 0 is read;
  \<^item> \<^verbatim>\<open>mesafs-list.c\<close> (the Volume Inspector), from the point where block 0 is read.

  The scan of the boot record for a partition of type \<^verbatim>\<open>0x77\<close> is the same in the three
  programs and only yields the partition's start and sector count; it is not part of the
  embedding. A partition is a function from block numbers to blocks, and reads and writes
  of the storage are taken to succeed. The byte offset of a block,
  \<^verbatim>\<open>part_offset + block_num * MESAFS_BLOCK_SIZE\<close>, is computed in 32 bits by the C code; the
  embedding addresses blocks by number, which agrees with the code as long as that offset
  does not wrap (every block number that the statements below reach is below 32768).

  The C code casts byte buffers to packed structs. The embedding keeps the byte buffers
  and reads and writes the fields at their offsets; the byte order of the host is a
  parameter.
\<close>

subsection \<open>Bytes, words and buffers\<close>

type_synonym u8 = "8 word"
type_synonym u16 = "16 word"
type_synonym u32 = "32 word"
type_synonym block = "u8 list"
type_synonym disk = "nat \<Rightarrow> block"

datatype endian = Little | Big

definition enc16 :: "endian \<Rightarrow> u16 \<Rightarrow> u8 list" where
  "enc16 e v =
     (let bs = [ucast v, ucast (drop_bit 8 v)]
      in case e of Little \<Rightarrow> bs | Big \<Rightarrow> rev bs)"

definition enc32 :: "endian \<Rightarrow> u32 \<Rightarrow> u8 list" where
  "enc32 e v =
     (let bs = [ucast v, ucast (drop_bit 8 v), ucast (drop_bit 16 v), ucast (drop_bit 24 v)]
      in case e of Little \<Rightarrow> bs | Big \<Rightarrow> rev bs)"

definition dec32 :: "endian \<Rightarrow> u8 list \<Rightarrow> u32" where
  "dec32 e bs =
     (let l = (case e of Little \<Rightarrow> bs | Big \<Rightarrow> rev bs)
      in ucast (l ! 0) OR push_bit 8 (ucast (l ! 1)) OR push_bit 16 (ucast (l ! 2))
           OR push_bit 24 (ucast (l ! 3)))"

text \<open>\<^verbatim>\<open>memcpy(dst + off, src, length src)\<close> on a buffer that is long enough.\<close>

definition memcpy_at :: "u8 list \<Rightarrow> nat \<Rightarrow> u8 list \<Rightarrow> u8 list" where
  "memcpy_at dst off src = take off dst @ src @ drop (off + length src) dst"

text \<open>Field accesses through a struct pointer into a byte buffer.\<close>

definition get32 :: "endian \<Rightarrow> u8 list \<Rightarrow> nat \<Rightarrow> u32" where
  "get32 e buf off = dec32 e (take 4 (drop off buf))"

definition put32 :: "endian \<Rightarrow> u8 list \<Rightarrow> nat \<Rightarrow> u32 \<Rightarrow> u8 list" where
  "put32 e buf off v = memcpy_at buf off (enc32 e v)"

definition put16 :: "endian \<Rightarrow> u8 list \<Rightarrow> nat \<Rightarrow> u16 \<Rightarrow> u8 list" where
  "put16 e buf off v = memcpy_at buf off (enc16 e v)"

definition put8 :: "u8 list \<Rightarrow> nat \<Rightarrow> u8 \<Rightarrow> u8 list" where
  "put8 buf off v = memcpy_at buf off [v]"

definition get8 :: "u8 list \<Rightarrow> nat \<Rightarrow> u8" where
  "get8 buf off = buf ! off"

subsection \<open>Layout constants\<close>

abbreviation (input) MESAFS_MAGIC :: u32 where "MESAFS_MAGIC \<equiv> 0x4D455341"
abbreviation (input) MESAFS_VERSION :: u32 where "MESAFS_VERSION \<equiv> 1"
abbreviation (input) MESAFS_BLOCK_SIZE :: nat where "MESAFS_BLOCK_SIZE \<equiv> 4096"
abbreviation (input) SECTOR_SIZE :: nat where "SECTOR_SIZE \<equiv> 512"
abbreviation (input) MESAFS_TYPE_FILE :: u8 where "MESAFS_TYPE_FILE \<equiv> 1"
abbreviation (input) MESAFS_TYPE_DIR :: u8 where "MESAFS_TYPE_DIR \<equiv> 2"
abbreviation (input) MESAFS_FLAG_USED :: u8 where "MESAFS_FLAG_USED \<equiv> 1"
abbreviation (input) MESAFS_MAX_FILENAME :: nat where "MESAFS_MAX_FILENAME \<equiv> 56"
abbreviation (input) MESAFS_DIRECT_BLOCKS :: nat where "MESAFS_DIRECT_BLOCKS \<equiv> 10"
abbreviation (input) MESAFS_BLOCK_BITMAP_BLOCK :: nat where "MESAFS_BLOCK_BITMAP_BLOCK \<equiv> 0"
abbreviation (input) MESAFS_INODE_BITMAP_BLOCK :: nat where "MESAFS_INODE_BITMAP_BLOCK \<equiv> 1"
abbreviation (input) MESAFS_INODE_TABLE_START :: nat where "MESAFS_INODE_TABLE_START \<equiv> 2"
abbreviation (input) MESAFS_INODE_TABLE_BLOCKS :: nat where "MESAFS_INODE_TABLE_BLOCKS \<equiv> 8"
abbreviation (input) MESAFS_DATA_START :: nat where "MESAFS_DATA_START \<equiv> 10"

text \<open>
  Offsets of the fields of the packed structs \<^verbatim>\<open>mesafs_superblock_t\<close> (512 bytes),
  \<^verbatim>\<open>mesafs_inode_t\<close> (128 bytes) and \<^verbatim>\<open>mesafs_dirent_t\<close> (64 bytes).
\<close>

abbreviation (input) sb_magic :: nat where "sb_magic \<equiv> 0"
abbreviation (input) sb_version :: nat where "sb_version \<equiv> 4"
abbreviation (input) sb_block_size :: nat where "sb_block_size \<equiv> 8"
abbreviation (input) sb_total_blocks :: nat where "sb_total_blocks \<equiv> 12"
abbreviation (input) sb_free_blocks :: nat where "sb_free_blocks \<equiv> 16"
abbreviation (input) sb_total_inodes :: nat where "sb_total_inodes \<equiv> 20"
abbreviation (input) sb_free_inodes :: nat where "sb_free_inodes \<equiv> 24"
abbreviation (input) sb_root_inode :: nat where "sb_root_inode \<equiv> 28"
abbreviation (input) sb_first_data_block :: nat where "sb_first_data_block \<equiv> 32"
abbreviation (input) sizeof_superblock :: nat where "sizeof_superblock \<equiv> 512"

abbreviation (input) ino_inode_num :: nat where "ino_inode_num \<equiv> 0"
abbreviation (input) ino_type :: nat where "ino_type \<equiv> 4"
abbreviation (input) ino_flags :: nat where "ino_flags \<equiv> 5"
abbreviation (input) ino_links :: nat where "ino_links \<equiv> 6"
abbreviation (input) ino_size :: nat where "ino_size \<equiv> 8"
abbreviation (input) ino_blocks_used :: nat where "ino_blocks_used \<equiv> 12"
abbreviation (input) ino_direct_blocks :: nat where "ino_direct_blocks \<equiv> 16"
abbreviation (input) sizeof_inode :: nat where "sizeof_inode \<equiv> 128"

abbreviation (input) de_inode :: nat where "de_inode \<equiv> 0"
abbreviation (input) de_type :: nat where "de_type \<equiv> 4"
abbreviation (input) de_name_len :: nat where "de_name_len \<equiv> 5"
abbreviation (input) de_name :: nat where "de_name \<equiv> 6"
abbreviation (input) sizeof_dirent :: nat where "sizeof_dirent \<equiv> 64"

subsection \<open>Bitmaps and block I/O\<close>

text \<open>
  \<^verbatim>\<open>bitmap[bit / 8] |= (1 << (bit % 8))\<close> and
  \<^verbatim>\<open>(bitmap[bit / 8] & (1 << (bit % 8))) != 0\<close>.
\<close>

definition bitmap_set :: "u8 list \<Rightarrow> nat \<Rightarrow> u8 list" where
  "bitmap_set bitmap b = bitmap[b div 8 := bitmap ! (b div 8) OR push_bit (b mod 8) 1]"

definition bitmap_test :: "u8 list \<Rightarrow> nat \<Rightarrow> bool" where
  "bitmap_test bitmap b = (bitmap ! (b div 8) AND push_bit (b mod 8) 1 \<noteq> 0)"

definition read_block :: "disk \<Rightarrow> nat \<Rightarrow> block" where
  "read_block d n = d n"

definition write_block :: "disk \<Rightarrow> nat \<Rightarrow> block \<Rightarrow> disk" where
  "write_block d n buf = d(n := buf)"

text \<open>A write of one 512-byte sector at the start of the partition (inside block 0).\<close>

definition write_first_sector :: "disk \<Rightarrow> u8 list \<Rightarrow> disk" where
  "write_first_sector d sector = d(0 := memcpy_at (d 0) 0 sector)"

abbreviation (input) zero_block :: block where "zero_block \<equiv> replicate MESAFS_BLOCK_SIZE 0"

subsection \<open>The Volume Initializer (\<^verbatim>\<open>mesafs-format.c\<close>)\<close>

text \<open>The struct \<^verbatim>\<open>sb\<close> that \<^verbatim>\<open>main\<close> fills in, as its 512 bytes.\<close>

definition format_superblock :: "endian \<Rightarrow> u32 \<Rightarrow> u8 list" where
  "format_superblock e total_blocks =
     (let total_inodes = (256 :: u32);
          sb = replicate sizeof_superblock 0;
          sb = put32 e sb sb_magic MESAFS_MAGIC;
          sb = put32 e sb sb_version MESAFS_VERSION;
          sb = put32 e sb sb_block_size (of_nat MESAFS_BLOCK_SIZE);
          sb = put32 e sb sb_total_blocks total_blocks;
          sb = put32 e sb sb_free_blocks (total_blocks - of_nat MESAFS_DATA_START - 1);
          sb = put32 e sb sb_total_inodes total_inodes;
          sb = put32 e sb sb_free_inodes (total_inodes - 2);
          sb = put32 e sb sb_root_inode 1;
          sb = put32 e sb sb_first_data_block (of_nat MESAFS_DATA_START)
      in sb)"

text \<open>Block 0 as the formatter builds it: the bitmap bits, then the superblock on top.\<close>

definition format_block0 :: "endian \<Rightarrow> u32 \<Rightarrow> block" where
  "format_block0 e total_blocks =
     (let blk = zero_block;
          blk = fold (\<lambda>i b. bitmap_set b i) [0..<MESAFS_DATA_START] blk;
          blk = bitmap_set blk MESAFS_DATA_START;
          blk = memcpy_at blk 0 (format_superblock e total_blocks)
      in blk)"

definition format_inode_bitmap :: block where
  "format_inode_bitmap = bitmap_set (bitmap_set zero_block 0) 1"

text \<open>The first block of the inode table: all zero but the root inode, \<^verbatim>\<open>inodes[1]\<close>.\<close>

definition format_inode_block :: "endian \<Rightarrow> block" where
  "format_inode_block e =
     (let base = 1 * sizeof_inode;
          blk = zero_block;
          blk = put32 e blk (base + ino_inode_num) 1;
          blk = put8 blk (base + ino_type) MESAFS_TYPE_DIR;
          blk = put8 blk (base + ino_flags) MESAFS_FLAG_USED;
          blk = put16 e blk (base + ino_links) 1;
          blk = put32 e blk (base + ino_size) 0;
          blk = put32 e blk (base + ino_blocks_used) 1;
          blk = put32 e blk (base + ino_direct_blocks) (of_nat MESAFS_DATA_START)
      in blk)"

text \<open>
  \<^verbatim>\<open>main\<close> of the formatter after the partition has been found: \<open>part_sectors\<close> is the
  sector count of the partition entry. The superblock is first written alone as one
  sector, then again as the head of block 0.
\<close>

definition mesafs_format :: "endian \<Rightarrow> u32 \<Rightarrow> disk \<Rightarrow> disk" where
  "mesafs_format e part_sectors d =
     (let total_blocks = part_sectors div 8;
          sb = format_superblock e total_blocks;
          sector = memcpy_at (replicate SECTOR_SIZE 0) 0 sb;
          d = write_first_sector d sector;
          d = write_block d MESAFS_BLOCK_BITMAP_BLOCK (format_block0 e total_blocks);
          d = write_block d MESAFS_INODE_BITMAP_BLOCK format_inode_bitmap;
          d = write_block d MESAFS_INODE_TABLE_START (format_inode_block e);
          d = fold (\<lambda>b d. write_block d (MESAFS_INODE_TABLE_START + b) zero_block)
                [1..<MESAFS_INODE_TABLE_BLOCKS] d;
          d = write_block d MESAFS_DATA_START zero_block
      in d)"

subsection \<open>The File Injector (\<^verbatim>\<open>inject-file.c\<close>)\<close>

text \<open>
  The failure exits of \<^verbatim>\<open>main\<close>. \<open>OutOfBounds\<close> stands for an access beyond a 4096-byte
  stack buffer, which C leaves undefined: a bitmap scan whose bound, read from the
  superblock, exceeds the 32768 bits of one block, or a table index beyond the block.
\<close>

datatype error =
    InvalidMagic | FileTooLarge | InsufficientInodes | InsufficientBlocks | DirectoryFull
  | OutOfBounds

text \<open>What a successful run prints at its end, with the block array it filled.\<close>

record inject_report =
  rep_inode :: u32
  rep_blocks :: "u32 list"
  rep_size :: nat

text \<open>\<^verbatim>\<open>filename = dest_path; if (dest_path[0] == '/') filename++;\<close>\<close>

fun dest_filename :: "string \<Rightarrow> string" where
  "dest_filename [] = []"
| "dest_filename (c # cs) = (if c = CHR ''/'' then cs else c # cs)"

text \<open>
  \<^verbatim>\<open>uint32_t blocks_needed = (file_size + MESAFS_BLOCK_SIZE - 1) / MESAFS_BLOCK_SIZE\<close>:
  the quotient is computed in \<^verbatim>\<open>long\<close> and converted to 32 bits.
\<close>

definition blocks_needed :: "nat \<Rightarrow> u32" where
  "blocks_needed file_size =
     (let n = (of_nat ((file_size + MESAFS_BLOCK_SIZE - 1) div MESAFS_BLOCK_SIZE) :: u32)
      in if n = 0 then 1 else n)"

text \<open>The scan for a free inode: \<^verbatim>\<open>for (i = 2; i < total_inodes; i++)\<close>, left at the first clear bit.\<close>

function scan_inodes :: "u8 list \<Rightarrow> nat \<Rightarrow> nat \<Rightarrow> error + nat option" where
  "scan_inodes inode_bitmap total_inodes i =
     (if i < total_inodes then
        (if length inode_bitmap \<le> i div 8 then Inl OutOfBounds
         else if \<not> bitmap_test inode_bitmap i then Inr (Some i)
         else scan_inodes inode_bitmap total_inodes (Suc i))
      else Inr None)"
  by pat_completeness auto
termination
  by (relation "measure (\<lambda>(bm, total_inodes, i). total_inodes - i)") auto

declare scan_inodes.simps [simp del]

text \<open>
  Inode allocation on the in-memory copies: the bit is set in \<open>inode_bitmap\<close> and
  \<^verbatim>\<open>sb_copy.free_inodes\<close> is decremented. \<^verbatim>\<open>new_inode == 0\<close> after the loop means that
  no bit was clear.
\<close>

definition alloc_inode ::
  "endian \<Rightarrow> u8 list \<Rightarrow> u8 list \<Rightarrow> error + (u32 \<times> u8 list \<times> u8 list)" where
  "alloc_inode e inode_bitmap sb_copy =
     (case scan_inodes inode_bitmap (unat (get32 e sb_copy sb_total_inodes)) 2 of
        Inl err \<Rightarrow> Inl err
      | Inr None \<Rightarrow> Inl InsufficientInodes
      | Inr (Some i) \<Rightarrow>
          Inr (of_nat i, bitmap_set inode_bitmap i,
               put32 e sb_copy sb_free_inodes (get32 e sb_copy sb_free_inodes - 1)))"

text \<open>
  The scan for data blocks,
  \<^verbatim>\<open>for (i = MESAFS_DATA_START + 1; i < total_blocks && blocks_allocated < blocks_needed; i++)\<close>.
  The bitmap is block 0 itself (\<^verbatim>\<open>block_bitmap = block\<close>); the state is that buffer,
  \<^verbatim>\<open>sb_copy\<close> and the blocks taken so far.
\<close>

function alloc_blocks ::
  "endian \<Rightarrow> nat \<Rightarrow> nat \<Rightarrow> nat \<Rightarrow> u8 list \<times> u8 list \<times> u32 list
     \<Rightarrow> error + (u8 list \<times> u8 list \<times> u32 list)" where
  "alloc_blocks e total_blocks needed i (blk, sb_copy, data_blocks) =
     (if i < total_blocks \<and> length data_blocks < needed then
        (if length blk \<le> i div 8 then Inl OutOfBounds
         else if \<not> bitmap_test blk i then
           alloc_blocks e total_blocks needed (Suc i)
             (bitmap_set blk i,
              put32 e sb_copy sb_free_blocks (get32 e sb_copy sb_free_blocks - 1),
              data_blocks @ [of_nat i])
         else alloc_blocks e total_blocks needed (Suc i) (blk, sb_copy, data_blocks))
      else Inr (blk, sb_copy, data_blocks))"
  by pat_completeness auto
termination
  by (relation "measure (\<lambda>(e, total_blocks, needed, i, st). total_blocks - i)") auto

declare alloc_blocks.simps [simp del]

text \<open>
  The payload, one zero-padded block per allocated block. \<^verbatim>\<open>file_size - offset\<close> is
  computed in \<^verbatim>\<open>long\<close>; \<open>offset\<close> never exceeds the file size.
\<close>

fun write_payload :: "u8 list \<Rightarrow> disk \<Rightarrow> nat \<Rightarrow> u32 list \<Rightarrow> disk" where
  "write_payload file_data d offset [] = d"
| "write_payload file_data d offset (b # bs) =
     (let chunk = (if length file_data - offset > MESAFS_BLOCK_SIZE then MESAFS_BLOCK_SIZE
                   else length file_data - offset);
          data_block = memcpy_at zero_block 0 (take chunk (drop offset file_data));
          d = write_block d (unat b) data_block
      in write_payload file_data d (offset + chunk) bs)"

text \<open>The place of an inode in the table.\<close>

definition inode_block_num :: "u32 \<Rightarrow> u32" where
  "inode_block_num n = of_nat MESAFS_INODE_TABLE_START + n div 32"

definition inode_index :: "u32 \<Rightarrow> u32" where
  "inode_index n = n mod 32"

text \<open>The inode record: its table block is read, the slot cleared and filled, the block written.\<close>

definition write_inode :: "endian \<Rightarrow> disk \<Rightarrow> u32 \<Rightarrow> nat \<Rightarrow> u32 list \<Rightarrow> disk" where
  "write_inode e d new_inode file_size data_blocks =
     (let base = unat (inode_index new_inode) * sizeof_inode;
          blk = read_block d (unat (inode_block_num new_inode));
          blk = memcpy_at blk base (replicate sizeof_inode 0);
          blk = put32 e blk (base + ino_inode_num) new_inode;
          blk = put8 blk (base + ino_type) MESAFS_TYPE_FILE;
          blk = put8 blk (base + ino_flags) MESAFS_FLAG_USED;
          blk = put16 e blk (base + ino_links) 1;
          blk = put32 e blk (base + ino_size) (of_nat file_size);
          blk = put32 e blk (base + ino_blocks_used) (of_nat (length data_blocks));
          blk = fold (\<lambda>i b. put32 e b (base + ino_direct_blocks + 4 * i) (data_blocks ! i))
                  [0..<length data_blocks] blk
      in write_block d (unat (inode_block_num new_inode)) blk)"

text \<open>The scan of the root directory block for a slot whose inode field is 0.\<close>

function find_free_slot :: "endian \<Rightarrow> u8 list \<Rightarrow> nat \<Rightarrow> nat option" where
  "find_free_slot e dir_block i =
     (if i < MESAFS_BLOCK_SIZE div sizeof_dirent then
        (if get32 e dir_block (i * sizeof_dirent + de_inode) = 0 then Some i
         else find_free_slot e dir_block (Suc i))
      else None)"
  by pat_completeness auto
termination
  by (relation "measure (\<lambda>(e, blk, i). MESAFS_BLOCK_SIZE div sizeof_dirent - i)") auto

declare find_free_slot.simps [simp del]

text \<open>
  \<^verbatim>\<open>strncpy(dst, src, n)\<close>: the first \<open>n\<close> characters of the string, padded with zero
  bytes up to \<open>n\<close>. The strings are C strings: they hold no zero character.
\<close>

definition strncpy_bytes :: "string \<Rightarrow> nat \<Rightarrow> u8 list" where
  "strncpy_bytes src n = take n (map of_char src) @ replicate (n - length src) 0"

definition write_dirent :: "endian \<Rightarrow> u8 list \<Rightarrow> nat \<Rightarrow> u32 \<Rightarrow> string \<Rightarrow> u8 list" where
  "write_dirent e dir_block free_slot new_inode filename =
     (let base = free_slot * sizeof_dirent;
          blk = put32 e dir_block (base + de_inode) new_inode;
          blk = put8 blk (base + de_type) MESAFS_TYPE_FILE;
          blk = put8 blk (base + de_name_len) (of_nat (length filename));
          blk = memcpy_at blk (base + de_name) (strncpy_bytes filename MESAFS_MAX_FILENAME)
      in blk)"

text \<open>
  \<^verbatim>\<open>main\<close> of the injector after the partition has been found. The result is the exit
  (an error, or the report of a successful run) and the storage as the run leaves it.
\<close>

definition inject_file ::
  "endian \<Rightarrow> disk \<Rightarrow> u8 list \<Rightarrow> string \<Rightarrow> (error + inject_report) \<times> disk" where
  "inject_file e d file_data dest_path =
     (let blk = read_block d MESAFS_BLOCK_BITMAP_BLOCK in
      if get32 e blk sb_magic \<noteq> MESAFS_MAGIC then (Inl InvalidMagic, d)
      else
        let sb_copy = take sizeof_superblock blk;
            inode_bitmap = read_block d MESAFS_INODE_BITMAP_BLOCK;
            file_size = length file_data;
            filename = dest_filename dest_path;
            needed = blocks_needed file_size
        in
        if needed > of_nat MESAFS_DIRECT_BLOCKS then (Inl FileTooLarge, d)
        else
          case alloc_inode e inode_bitmap sb_copy of
            Inl err \<Rightarrow> (Inl err, d)
          | Inr (new_inode, inode_bitmap, sb_copy) \<Rightarrow>
              (case alloc_blocks e (unat (get32 e sb_copy sb_total_blocks)) (unat needed)
                      (MESAFS_DATA_START + 1) (blk, sb_copy, []) of
                 Inl err \<Rightarrow> (Inl err, d)
               | Inr (blk, sb_copy, data_blocks) \<Rightarrow>
                   if length data_blocks < unat needed then (Inl InsufficientBlocks, d)
                   else
                     let d = write_payload file_data d 0 data_blocks;
                         d = write_inode e d new_inode file_size data_blocks;
                         root_inode_block = read_block d MESAFS_INODE_TABLE_START;
                         root_dir_block =
                           unat (get32 e root_inode_block (1 * sizeof_inode + ino_direct_blocks));
                         dir_block = read_block d root_dir_block
                     in
                     (case find_free_slot e dir_block 0 of
                        None \<Rightarrow> (Inl DirectoryFull, d)
                      | Some free_slot \<Rightarrow>
                          let dir_block = write_dirent e dir_block free_slot new_inode filename;
                              d = write_block d root_dir_block dir_block;
                              blk = memcpy_at blk 0 sb_copy;
                              d = write_block d MESAFS_BLOCK_BITMAP_BLOCK blk;
                              d = write_block d MESAFS_INODE_BITMAP_BLOCK inode_bitmap
                          in (Inr \<lparr>rep_inode = new_inode, rep_blocks = data_blocks,
                                   rep_size = file_size\<rparr>, d))))"

subsection \<open>The Volume Inspector (\<^verbatim>\<open>mesafs-list.c\<close>)\<close>





subsection \<open>Observations used in the statements\<close>

text \<open>A partition whose blocks are all zero.\<close>

definition blank_disk :: disk where
  "blank_disk = (\<lambda>n. zero_block)"

text \<open>The clear bits of a bitmap in a range, in ascending order.\<close>

definition free_bits :: "u8 list \<Rightarrow> nat \<Rightarrow> nat \<Rightarrow> nat list" where
  "free_bits bitmap lo hi = filter (\<lambda>j. \<not> bitmap_test bitmap j) [lo..<hi]"

text \<open>\<^verbatim>\<open>sb_copy.free_blocks--\<close> on the bytes of the struct.\<close>

definition dec_free_blocks :: "endian \<Rightarrow> u8 list \<Rightarrow> u8 list" where
  "dec_free_blocks e sb = put32 e sb sb_free_blocks (get32 e sb sb_free_blocks - 1)"

text \<open>The block that holds the file's bytes from an offset on, padded with zeros.\<close>

definition payload_block :: "u8 list \<Rightarrow> nat \<Rightarrow> block" where
  "payload_block file_data off =
     memcpy_at zero_block 0 (take MESAFS_BLOCK_SIZE (drop off file_data))"

text \<open>The 128 bytes of a used inode and the first 62 bytes of a directory entry.\<close>

definition inode_record :: "endian \<Rightarrow> u32 \<Rightarrow> u8 \<Rightarrow> u32 \<Rightarrow> u32 list \<Rightarrow> u8 list" where
  "inode_record e n ty sz bs =
     enc32 e n @ [ty, MESAFS_FLAG_USED] @ enc16 e 1 @ enc32 e sz @ enc32 e (of_nat (length bs))
       @ concat (map (enc32 e) bs) @ replicate (112 - 4 * length bs) 0"

definition dirent_record :: "endian \<Rightarrow> u32 \<Rightarrow> string \<Rightarrow> u8 list" where
  "dirent_record e n name =
     enc32 e n @ [MESAFS_TYPE_FILE, of_nat (length name)] @ strncpy_bytes name MESAFS_MAX_FILENAME"

text \<open>
  The clear bits among bits 11 to 28 of a block that starts with the magic constant:
  these bits lie in the bytes of the magic itself.
\<close>

definition magic_free :: "endian \<Rightarrow> nat list" where
  "magic_free e = (case e of Little \<Rightarrow> [11,13,15,17,19,20,21,23,25,28]
                           | Big \<Rightarrow> [11,12,13,15,18,19,21,23,25,26,27,28])"

text \<open>
  A volume as the formatter lays it out and as the injector keeps it: blocks 0 to 10 are
  whole blocks, the magic is valid, there are 256 inodes, the root inode is inode 1 and
  its first direct block is block 10.
\<close>

definition volume_ok :: "endian \<Rightarrow> disk \<Rightarrow> bool" where
  "volume_ok e d \<longleftrightarrow>
     (\<forall>b \<le> MESAFS_DATA_START. length (d b) = MESAFS_BLOCK_SIZE)
     \<and> get32 e (d MESAFS_BLOCK_BITMAP_BLOCK) sb_magic = MESAFS_MAGIC
     \<and> get32 e (d MESAFS_BLOCK_BITMAP_BLOCK) sb_total_inodes = 256
     \<and> get32 e (d MESAFS_BLOCK_BITMAP_BLOCK) sb_root_inode = 1
     \<and> get32 e (d MESAFS_INODE_TABLE_START) (1 * sizeof_inode + ino_direct_blocks)
         = of_nat MESAFS_DATA_START"

text \<open>
  The superblock copy at the end of a successful injection of \<open>k\<close> blocks: one inode and
  \<open>k\<close> blocks fewer than in the superblock that was read.
\<close>

definition injected_superblock :: "endian \<Rightarrow> block \<Rightarrow> nat \<Rightarrow> u8 list" where
  "injected_superblock e blk k =
     (dec_free_blocks e ^^ k)
       (put32 e (take sizeof_superblock blk) sb_free_inodes
          (get32 e (take sizeof_superblock blk) sb_free_inodes - 1))"



text \<open>Two formatted partitions for the examples: 100 blocks, and 11 blocks (no free block).\<close>

definition volume_100 :: disk where
  "volume_100 = mesafs_format Little 800 blank_disk"

definition volume_11 :: disk where
  "volume_11 = mesafs_format Little 88 blank_disk"



section \<open>Properties\<close>

subsection \<open>Buffers\<close>

lemma length_enc32 [simp]: "length (enc32 e v) = 4"
  by (cases e) (simp_all add: enc32_def)

lemma length_enc16 [simp]: "length (enc16 e v) = 2"
  by (cases e) (simp_all add: enc16_def)

lemma bytes_of_u32:
  "ucast (ucast v :: u8) OR push_bit 8 (ucast (ucast (drop_bit 8 v) :: u8))
     OR push_bit 16 (ucast (ucast (drop_bit 16 v) :: u8))
     OR push_bit 24 (ucast (ucast (drop_bit 24 v) :: u8)) = (v :: u32)"
proof (rule bit_word_eqI)
  fix n :: nat
  assume "n < LENGTH(32)"
  then have n: "n < 32" by simp
  consider "n < 8" | "8 \<le> n" "n < 16" | "16 \<le> n" "n < 24" | "24 \<le> n"
    by linarith
  then show "bit (ucast (ucast v :: u8) OR push_bit 8 (ucast (ucast (drop_bit 8 v) :: u8))
     OR push_bit 16 (ucast (ucast (drop_bit 16 v) :: u8))
     OR push_bit 24 (ucast (ucast (drop_bit 24 v) :: u8)) :: u32) n = bit v n"
    using n by cases (auto simp: bit_simps)
qed

lemma dec32_enc32 [simp]: "dec32 e (enc32 e v) = v"
  using bytes_of_u32 [of v] by (cases e) (simp_all add: dec32_def enc32_def ac_simps)

lemma length_memcpy_at [simp]:
  "off + length src \<le> length dst \<Longrightarrow> length (memcpy_at dst off src) = length dst"
  by (simp add: memcpy_at_def)

lemma memcpy_at_0: "memcpy_at buf 0 src = src @ drop (length src) buf"
  by (simp add: memcpy_at_def)

lemma memcpy_at_skip:
  "length pre \<le> off \<Longrightarrow> memcpy_at (pre @ rest) off src = pre @ memcpy_at rest (off - length pre) src"
  by (simp add: memcpy_at_def)

lemma length_put32 [simp]: "off + 4 \<le> length buf \<Longrightarrow> length (put32 e buf off v) = length buf"
  by (simp add: put32_def)

lemma length_put16 [simp]: "off + 2 \<le> length buf \<Longrightarrow> length (put16 e buf off v) = length buf"
  by (simp add: put16_def)

lemma length_put8 [simp]: "off < length buf \<Longrightarrow> length (put8 buf off v) = length buf"
  by (simp add: put8_def)

lemma put32_0: "put32 e buf 0 v = enc32 e v @ drop 4 buf"
  by (simp add: put32_def memcpy_at_0)

lemma put32_skip:
  "length pre \<le> off \<Longrightarrow> put32 e (pre @ rest) off v = pre @ put32 e rest (off - length pre) v"
  by (simp add: put32_def memcpy_at_skip)

lemma get32_skip:
  "length pre \<le> off \<Longrightarrow> get32 e (pre @ rest) off = get32 e rest (off - length pre)"
  by (simp add: get32_def)

lemma get32_enc32 [simp]: "get32 e (enc32 e v @ rest) 0 = v"
  by (simp add: get32_def)

lemma get32_put32_same [simp]:
  "off + 4 \<le> length buf \<Longrightarrow> get32 e (put32 e buf off v) off = v"
  by (simp add: get32_def put32_def memcpy_at_def)

lemma nth_memcpy_at:
  "off + length src \<le> length dst \<Longrightarrow> i < length dst \<Longrightarrow>
   memcpy_at dst off src ! i = (if off \<le> i \<and> i < off + length src then src ! (i - off) else dst ! i)"
  by (auto simp: memcpy_at_def nth_append min_def)

lemma take4_drop:
  assumes "off + 4 \<le> length buf"
  shows "take 4 (drop off buf) = [buf ! off, buf ! (off + 1), buf ! (off + 2), buf ! (off + 3)]"
proof -
  have "drop off buf =
      buf ! off # buf ! Suc off # buf ! Suc (Suc off) # buf ! Suc (Suc (Suc off))
        # drop (Suc (Suc (Suc (Suc off)))) buf"
    using assms by (simp add: Cons_nth_drop_Suc)
  then show ?thesis by (simp add: numeral_3_eq_3)
qed

lemma get32_nth:
  "off + 4 \<le> length buf \<Longrightarrow>
   get32 e buf off = dec32 e [buf ! off, buf ! (off + 1), buf ! (off + 2), buf ! (off + 3)]"
  by (simp add: get32_def take4_drop)

lemma get32_memcpy_at_other:
  "off' + 4 \<le> off \<or> off + length src \<le> off' \<Longrightarrow> off + length src \<le> length buf \<Longrightarrow>
   off' + 4 \<le> length buf \<Longrightarrow>
   get32 e (memcpy_at buf off src) off' = get32 e buf off'"
  by (auto simp: get32_nth nth_memcpy_at)

subsection \<open>The formatter's blocks\<close>

lemma format_superblock_bytes:
  "format_superblock e tb =
     enc32 e MESAFS_MAGIC @ enc32 e 1 @ enc32 e 4096 @ enc32 e tb @ enc32 e (tb - 11)
       @ enc32 e 256 @ enc32 e 254 @ enc32 e 1 @ enc32 e 10 @ replicate 476 0"
  by (simp add: format_superblock_def put32_0 put32_skip)

lemma length_format_superblock [simp]: "length (format_superblock e tb) = 512"
  by (simp add: format_superblock_bytes)

lemma upt10: "[0..<10] = [0,1,2,3,4,5,6,7,8,9::nat]"
  by code_simp

lemma format_block0_eq: "format_block0 e tb = format_superblock e tb @ replicate 3584 0"
  by (simp add: format_block0_def upt10 bitmap_set_def memcpy_at_0)

lemma upt_1_8: "[Suc 0..<8] = [1,2,3,4,5,6,7::nat]"
  by code_simp

lemma mesafs_format_eq:
  "mesafs_format e s d =
     d(0 := format_block0 e (s div 8), 1 := format_inode_bitmap, 2 := format_inode_block e,
       3 := zero_block, 4 := zero_block, 5 := zero_block, 6 := zero_block, 7 := zero_block,
       8 := zero_block, 9 := zero_block, 10 := zero_block)"
  apply (simp add: mesafs_format_def write_block_def write_first_sector_def Let_def upt_1_8
      numeral_3_eq_3 [symmetric] del: upt_Suc)
  done

lemma get32_format_superblock:
  "get32 e (format_superblock e tb @ rest) sb_magic = MESAFS_MAGIC"
  "get32 e (format_superblock e tb @ rest) sb_version = 1"
  "get32 e (format_superblock e tb @ rest) sb_block_size = 4096"
  "get32 e (format_superblock e tb @ rest) sb_total_blocks = tb"
  "get32 e (format_superblock e tb @ rest) sb_free_blocks = tb - 11"
  "get32 e (format_superblock e tb @ rest) sb_total_inodes = 256"
  "get32 e (format_superblock e tb @ rest) sb_free_inodes = 254"
  "get32 e (format_superblock e tb @ rest) sb_root_inode = 1"
  "get32 e (format_superblock e tb @ rest) sb_first_data_block = 10"
  by (simp_all add: format_superblock_bytes get32_skip)

lemma format_block0_read:
  "read_block (mesafs_format e s d) 0 = format_superblock e (s div 8) @ replicate 3584 0"
  by (simp add: mesafs_format_eq read_block_def format_block0_eq)

lemma format_superblock_byte0:
  "format_superblock e tb ! 0 = (case e of Little \<Rightarrow> 0x41 | Big \<Rightarrow> 0x4D)"
  "format_superblock e tb ! Suc 0 = (case e of Little \<Rightarrow> 0x53 | Big \<Rightarrow> 0x45)"
  by (cases e; simp add: format_superblock_bytes enc32_def nth_append)+

subsection \<open>Bitmaps and the block scan\<close>

lemma bitmap_test_bit: "bitmap_test bitmap b = bit (bitmap ! (b div 8)) (b mod 8)"
  by (simp add: bitmap_test_def bit_iff_and_push_bit_not_eq_0)

lemma length_bitmap_set [simp]: "length (bitmap_set bitmap b) = length bitmap"
  by (simp add: bitmap_set_def)

lemma bitmap_test_set:
  assumes "i div 8 < length bitmap"
  shows "bitmap_test (bitmap_set bitmap i) j = (j = i \<or> bitmap_test bitmap j)"
proof (cases "j div 8 = i div 8")
  case True
  have "(j = i) = (j mod 8 = i mod 8)"
    using True by (metis div_mult_mod_eq)
  moreover have "i mod 8 < 8" by simp
  ultimately show ?thesis
    using True assms
    by (auto simp: bitmap_test_bit bitmap_set_def bit_or_iff bit_push_bit_iff bit_1_iff bit_exp_iff)
next
  case False
  then have "j \<noteq> i" by auto
  with False show ?thesis
    by (simp add: bitmap_test_bit bitmap_set_def)
qed

lemma free_bits_rec:
  "free_bits bitmap lo hi =
     (if lo < hi then (if bitmap_test bitmap lo then [] else [lo]) @ free_bits bitmap (Suc lo) hi
      else [])"
  by (simp add: free_bits_def upt_rec [of lo hi])

lemma free_bits_set:
  "i div 8 < length bitmap \<Longrightarrow> i < lo \<Longrightarrow>
   free_bits (bitmap_set bitmap i) lo hi = free_bits bitmap lo hi"
  unfolding free_bits_def by (rule filter_cong) (auto simp: bitmap_test_set)

lemma alloc_blocks_first_fit:
  "total_blocks \<le> 8 * length blk \<Longrightarrow>
   alloc_blocks e total_blocks needed i (blk, sb, bs) =
     (let new = take (needed - length bs) (free_bits blk i total_blocks)
      in Inr (fold (\<lambda>j b. bitmap_set b j) new blk,
              (dec_free_blocks e ^^ length new) sb,
              bs @ map of_nat new))"
proof (induction e total_blocks needed i "(blk, sb, bs)" arbitrary: blk sb bs rule: alloc_blocks.induct)
  case (1 e total_blocks needed i blk sb data_blocks)
  show ?case
  proof (cases "i < total_blocks \<and> length data_blocks < needed")
    case False
    then show ?thesis
      by (subst alloc_blocks.simps) (auto simp: free_bits_rec [of blk i])
  next
    case True
    then have inb: "i div 8 < length blk"
      using "1.prems" by auto
    show ?thesis
    proof (cases "bitmap_test blk i")
      case True
      with \<open>i < total_blocks \<and> length data_blocks < needed\<close> inb "1.hyps"(2) "1.prems"
      show ?thesis
        by (subst alloc_blocks.simps) (simp add: free_bits_rec [of blk i])
    next
      case False
      have "alloc_blocks e total_blocks needed (Suc i)
              (bitmap_set blk i, put32 e sb sb_free_blocks (get32 e sb sb_free_blocks - 1),
               data_blocks @ [of_nat i]) = 
            (let new = take (needed - length (data_blocks @ [of_nat i :: u32]))
                         (free_bits (bitmap_set blk i) (Suc i) total_blocks)
             in Inr (fold (\<lambda>j b. bitmap_set b j) new (bitmap_set blk i),
              (dec_free_blocks e ^^ length new) (put32 e sb sb_free_blocks (get32 e sb sb_free_blocks - 1)),
              (data_blocks @ [of_nat i]) @ map of_nat new))"
        using True inb False "1.prems" by (intro "1.hyps"(1)) auto
      moreover obtain k where k: "needed - length data_blocks = Suc k"
        using True by (metis Suc_diff_Suc)
      moreover have "needed - Suc (length data_blocks) = k"
        using k by simp
      ultimately show ?thesis
        using True inb False
        by (subst alloc_blocks.simps)
           (simp add: free_bits_rec [of blk i] free_bits_set Let_def dec_free_blocks_def
              funpow_swap1)
    qed
  qed
qed

lemma alloc_blocks_enough:
  "hi \<le> total_blocks \<Longrightarrow> hi \<le> 8 * length blk \<Longrightarrow>
   needed - length bs \<le> length (free_bits blk i hi) \<Longrightarrow>
   alloc_blocks e total_blocks needed i (blk, sb, bs) = alloc_blocks e hi needed i (blk, sb, bs)"
proof (induction e hi needed i "(blk, sb, bs)" arbitrary: blk sb bs rule: alloc_blocks.induct)
  case (1 e hi needed i blk sb data_blocks)
  show ?case
  proof (cases "i < hi \<and> length data_blocks < needed")
    case False
    then have "\<not> (i < total_blocks \<and> length data_blocks < needed)"
      using "1.prems"(3) by (auto simp: free_bits_rec [of blk i])
    with False "1.prems"(1) show ?thesis
      by (auto simp add: alloc_blocks.simps [of e _ needed i])
  next
    case True
    then have inb: "i div 8 < length blk" and lt: "i < total_blocks"
      using "1.prems" by auto
    show ?thesis
    proof (cases "bitmap_test blk i")
      case True
      have "alloc_blocks e total_blocks needed (Suc i) (blk, sb, data_blocks)
            = alloc_blocks e hi needed (Suc i) (blk, sb, data_blocks)"
        using \<open>i < hi \<and> length data_blocks < needed\<close> inb True "1.prems"
        by (intro "1.hyps"(2)) (auto simp: free_bits_rec [of blk i])
      then show ?thesis
        using \<open>i < hi \<and> length data_blocks < needed\<close> inb True lt
        by (simp add: alloc_blocks.simps [of e _ needed i])
    next
      case False
      have "alloc_blocks e total_blocks needed (Suc i)
              (bitmap_set blk i, put32 e sb sb_free_blocks (get32 e sb sb_free_blocks - 1),
               data_blocks @ [of_nat i])
            = alloc_blocks e hi needed (Suc i)
              (bitmap_set blk i, put32 e sb sb_free_blocks (get32 e sb sb_free_blocks - 1),
               data_blocks @ [of_nat i])"
        using True inb False "1.prems"
        by (intro "1.hyps"(1)) (auto simp: free_bits_rec [of blk i] free_bits_set)
      then show ?thesis
        using True inb False lt
        by (simp add: alloc_blocks.simps [of e _ needed i])
    qed
  qed
qed

lemma byte_of_bytes:
  fixes a b c d :: u8
  shows "ucast (ucast a OR push_bit 8 (ucast b) OR push_bit 16 (ucast c) OR push_bit 24 (ucast d) :: u32) = a"
    and "ucast (drop_bit 8 (ucast a OR push_bit 8 (ucast b) OR push_bit 16 (ucast c) OR push_bit 24 (ucast d) :: u32)) = b"
    and "ucast (drop_bit 16 (ucast a OR push_bit 8 (ucast b) OR push_bit 16 (ucast c) OR push_bit 24 (ucast d) :: u32)) = c"
    and "ucast (drop_bit 24 (ucast a OR push_bit 8 (ucast b) OR push_bit 16 (ucast c) OR push_bit 24 (ucast d) :: u32)) = d"
  by (rule bit_word_eqI; auto simp: bit_simps dest: bit_imp_le_length)+

lemma enc32_dec32: "length bs = 4 \<Longrightarrow> enc32 e (dec32 e bs) = bs"
proof -
  assume "length bs = 4"
  then obtain a b c d where bs: "bs = [a, b, c, d]"
    by (auto simp: length_Suc_conv numeral_eq_Suc)
  show ?thesis
    unfolding bs
    by (cases e) (simp_all only: enc32_def dec32_def Let_def endian.case rev.simps append.simps
          nth_Cons_0 nth_Cons_Suc nth_Cons_numeral byte_of_bytes One_nat_def
          diff_numeral_Suc diff_zero pred_numeral_simps numeral_2_eq_2 numeral_3_eq_3
          byte_of_bytes [of d c b a, simplified ac_simps] list.inject simp_thms)
qed

lemma get32_magic_bytes:
  "4 \<le> length blk \<Longrightarrow> get32 e blk 0 = v \<Longrightarrow> take 4 blk = enc32 e v"
  using enc32_dec32 [of "take 4 blk" e] by (auto simp: get32_def)

lemma bitmap_test_take:
  "i < 8 * n \<Longrightarrow> bitmap_test (take n blk) i = bitmap_test blk i"
  by (simp add: bitmap_test_bit)

lemma free_bits_take:
  "hi \<le> 8 * n \<Longrightarrow> free_bits (take n blk) lo hi = free_bits blk lo hi"
  unfolding free_bits_def by (rule filter_cong) (auto simp: bitmap_test_take)

lemma upt_11_29: "[11..<29] = [11,12,13,14,15,16,17,18,19,20,21,22,23,24,25,26,27,28::nat]"
  by code_simp

lemma free_bits_magic:
  "free_bits (enc32 e MESAFS_MAGIC) 11 29 =
     (case e of Little \<Rightarrow> [11,13,15,17,19,20,21,23,25,28]
              | Big \<Rightarrow> [11,12,13,15,18,19,21,23,25,26,27,28])"
  by (cases e) (simp_all add: free_bits_def upt_11_29 enc32_def bitmap_test_def)

lemma get32_take: "off + 4 \<le> n \<Longrightarrow> get32 e (take n blk) off = get32 e blk off"
  by (simp add: get32_def drop_take min_def)

lemma get32_append_left: "off + 4 \<le> length a \<Longrightarrow> get32 e (a @ b) off = get32 e a off"
  by (simp add: get32_def)

lemma get32_put32_other:
  "off' + 4 \<le> off \<or> off + 4 \<le> off' \<Longrightarrow> off + 4 \<le> length buf \<Longrightarrow> off' + 4 \<le> length buf \<Longrightarrow>
   get32 e (put32 e buf off v) off' = get32 e buf off'"
  by (simp add: put32_def get32_memcpy_at_other)

lemma get32_put16_other:
  "off' + 4 \<le> off \<or> off + 2 \<le> off' \<Longrightarrow> off + 2 \<le> length buf \<Longrightarrow> off' + 4 \<le> length buf \<Longrightarrow>
   get32 e (put16 e buf off v) off' = get32 e buf off'"
  by (simp add: put16_def get32_memcpy_at_other)

lemma get32_put8_other:
  "off' + 4 \<le> off \<or> off + 1 \<le> off' \<Longrightarrow> off + 1 \<le> length buf \<Longrightarrow> off' + 4 \<le> length buf \<Longrightarrow>
   get32 e (put8 buf off v) off' = get32 e buf off'"
  by (simp add: put8_def get32_memcpy_at_other)

subsection \<open>The inode scan\<close>

lemma scan_inodes_Some:
  "scan_inodes bm total_inodes i = Inr (Some n) \<Longrightarrow>
   i \<le> n \<and> n < total_inodes \<and> n div 8 < length bm \<and> \<not> bitmap_test bm n"
proof (induction bm total_inodes i rule: scan_inodes.induct)
  case (1 bm total_inodes i)
  from "1.prems" show ?case
    by (subst (asm) scan_inodes.simps) (auto split: if_splits dest!: "1.IH" simp: not_le)
qed

lemma alloc_inode_Inr:
  assumes "alloc_inode e bm sb = Inr (n, bm', sb')"
  shows "\<exists>i. scan_inodes bm (unat (get32 e sb sb_total_inodes)) 2 = Inr (Some i)
            \<and> n = of_nat i \<and> bm' = bitmap_set bm i
            \<and> sb' = put32 e sb sb_free_inodes (get32 e sb sb_free_inodes - 1)"
  using assms by (auto simp: alloc_inode_def split: sum.splits option.splits)

subsection \<open>The superblock copy\<close>

lemma length_dec_free_blocks [simp]:
  "20 \<le> length sb \<Longrightarrow> length ((dec_free_blocks e ^^ k) sb) = length sb"
  by (induction k) (simp_all add: dec_free_blocks_def)


lemma get32_dec_free_blocks_same:
  "20 \<le> length sb \<Longrightarrow>
   get32 e ((dec_free_blocks e ^^ k) sb) sb_free_blocks = get32 e sb sb_free_blocks - of_nat k"
  by (induction k) (simp_all add: dec_free_blocks_def)

subsection \<open>The payload\<close>

lemma length_payload_block [simp]: "length (payload_block f off) = 4096"
  by (simp add: payload_block_def)


lemma write_payload_step:
  "write_payload f d off (b # bs) =
     write_payload f (d(unat b := payload_block f off))
       (off + (if length f - off > 4096 then 4096 else length f - off)) bs"
proof -
  have "take (if length f - off > 4096 then 4096 else length f - off) (drop off f)
          = take 4096 (drop off f)"
    by simp
  then show ?thesis
    by (simp add: payload_block_def write_block_def Let_def del: take_drop)
qed

lemma write_payload_other:
  "n \<notin> unat ` set bs \<Longrightarrow> write_payload f d off bs n = d n"
  by (induction bs arbitrary: d off) (simp_all add: write_payload_step del: write_payload.simps(2))



subsection \<open>Inode records and directory entries\<close>

lemma memcpy_at_left:
  "off + length src \<le> length a \<Longrightarrow> memcpy_at (a @ b) off src = memcpy_at a off src @ b"
  by (simp add: memcpy_at_def)

lemma memcpy_at_whole: "length src = length a \<Longrightarrow> memcpy_at (a @ b) 0 src = src @ b"
  by (simp add: memcpy_at_def)

lemma memcpy_at_Cons: "0 < off \<Longrightarrow> memcpy_at (x # xs) off src = x # memcpy_at xs (off - 1) src"
  by (cases off) (simp_all add: memcpy_at_def)

lemma get32_Cons: "0 < off \<Longrightarrow> get32 e (x # xs) off = get32 e xs (off - 1)"
  by (cases off) (simp_all add: get32_def)

lemma length_concat_enc32 [simp]: "length (concat (map (enc32 e) bs)) = 4 * length bs"
  by (induction bs) simp_all

lemma get32_concat_enc32:
  "j < length bs \<Longrightarrow> get32 e (concat (map (enc32 e) bs) @ rest) (4 * j) = bs ! j"
proof (induction bs arbitrary: j)
  case Nil
  then show ?case by simp
next
  case (Cons b bs)
  show ?case
  proof (cases j)
    case 0
    then show ?thesis by simp
  next
    case (Suc j')
    with Cons.prems Cons.IH [of j'] show ?thesis
      by (simp add: get32_skip)
  qed
qed

lemma put32_at:
  "length a = off \<Longrightarrow> 4 \<le> n \<Longrightarrow>
   put32 e (a @ replicate n 0 @ post) off v = a @ enc32 e v @ replicate (n - 4) 0 @ post"
  by (simp add: put32_def memcpy_at_def)

lemma fold_direct_blocks:
  "m \<le> length bs \<Longrightarrow> 4 * m \<le> k \<Longrightarrow> length hdr = ino_direct_blocks \<Longrightarrow>
   fold (\<lambda>i b. put32 e b (length pre + ino_direct_blocks + 4 * i) (bs ! i)) [0..<m]
        (pre @ hdr @ replicate k 0 @ post)
     = pre @ hdr @ concat (map (enc32 e) (take m bs)) @ replicate (k - 4 * m) 0 @ post"
proof (induction m)
  case 0
  then show ?case by simp
next
  case (Suc m)
  let ?f = "\<lambda>i b. put32 e b (length pre + ino_direct_blocks + 4 * i) (bs ! i)"
  let ?C = "concat (map (enc32 e) (take m bs))"
  have ih: "fold ?f [0..<m] (pre @ hdr @ replicate k 0 @ post)
              = (pre @ hdr @ ?C) @ replicate (k - 4 * m) 0 @ post"
    using Suc by simp
  have len: "length (pre @ hdr @ ?C) = length pre + ino_direct_blocks + 4 * m"
    using Suc.prems by simp
  have tk: "take (Suc m) bs = take m bs @ [bs ! m]"
    using Suc.prems by (simp add: take_Suc_conv_app_nth)
  have "fold ?f [0..<Suc m] (pre @ hdr @ replicate k 0 @ post)
          = ?f m (fold ?f [0..<m] (pre @ hdr @ replicate k 0 @ post))"
    by simp
  also have "\<dots> = put32 e ((pre @ hdr @ ?C) @ replicate (k - 4 * m) 0 @ post)
                        (length pre + ino_direct_blocks + 4 * m) (bs ! m)"
    by (simp only: ih)
  also have "\<dots> = (pre @ hdr @ ?C) @ enc32 e (bs ! m) @ replicate (k - 4 * m - 4) 0 @ post"
    using Suc.prems by (intro put32_at len) simp
  also have "\<dots> = pre @ hdr @ concat (map (enc32 e) (take (Suc m) bs))
                        @ replicate (k - 4 * Suc m) 0 @ post"
    by (simp add: tk)
  finally show ?case .
qed

lemma put_skip:
  "length pre \<le> off \<Longrightarrow> put32 e (pre @ rest) off v = pre @ put32 e rest (off - length pre) v"
  "length pre \<le> off \<Longrightarrow> put16 e (pre @ rest) off w = pre @ put16 e rest (off - length pre) w"
  "length pre \<le> off \<Longrightarrow> put8 (pre @ rest) off b = pre @ put8 rest (off - length pre) b"
  by (simp_all add: put32_def put16_def put8_def memcpy_at_skip)

lemma put_Cons:
  "0 < off \<Longrightarrow> put32 e (x # xs) off v = x # put32 e xs (off - 1) v"
  "0 < off \<Longrightarrow> put16 e (x # xs) off w = x # put16 e xs (off - 1) w"
  "0 < off \<Longrightarrow> put8 (x # xs) off b = x # put8 xs (off - 1) b"
  by (simp_all add: put32_def put16_def put8_def memcpy_at_Cons)

lemma put_0:
  "put32 e buf 0 v = enc32 e v @ drop 4 buf"
  "put16 e buf 0 w = enc16 e w @ drop 2 buf"
  "put8 buf 0 b = b # drop 1 buf"
  by (simp_all add: put32_def put16_def put8_def memcpy_at_0)

lemma write_inode_eq:
  fixes d :: disk and n :: u32
  defines "ib \<equiv> unat (inode_block_num n)" and "base \<equiv> unat (inode_index n) * sizeof_inode"
  assumes len: "length (d ib) = 4096" and nb: "length bs \<le> 10"
  shows "write_inode e d n file_size bs =
           d(ib := take base (d ib) @ inode_record e n MESAFS_TYPE_FILE (of_nat file_size) bs
                     @ drop (base + sizeof_inode) (d ib))"
proof -
  let ?pre = "take base (d ib)" and ?post = "drop (base + 128) (d ib)"
  let ?hdr = "enc32 e n @ [MESAFS_TYPE_FILE, MESAFS_FLAG_USED] @ enc16 e 1
                @ enc32 e (of_nat file_size) @ enc32 e (of_nat (length bs))"
  have "unat (inode_index n) < 32"
    by (simp add: inode_index_def unat_mod)
  then have base: "base + 128 \<le> 4096"
    unfolding base_def by simp
  then have lpre: "length ?pre = base"
    using len by simp
  have hdr: "put32 e (put32 e (put16 e (put8 (put8 (put32 e
               (memcpy_at (d ib) base (replicate 128 0))
               (base + ino_inode_num) n) (base + ino_type) MESAFS_TYPE_FILE)
               (base + ino_flags) MESAFS_FLAG_USED) (base + ino_links) 1)
               (base + ino_size) (of_nat file_size)) (base + ino_blocks_used) (of_nat (length bs))
             = ?pre @ ?hdr @ replicate 112 0 @ ?post"
    using lpre by (simp add: memcpy_at_def put_skip put_Cons put_0)
  have "fold (\<lambda>i b. put32 e b (base + ino_direct_blocks + 4 * i) (bs ! i)) [0..<length bs]
          (?pre @ ?hdr @ replicate 112 0 @ ?post)
        = ?pre @ ?hdr @ concat (map (enc32 e) (take (length bs) bs))
            @ replicate (112 - 4 * length bs) 0 @ ?post"
    using fold_direct_blocks [of "length bs" bs 112 ?hdr e ?pre ?post] nb lpre by simp
  then show ?thesis
    unfolding write_inode_def Let_def read_block_def write_block_def ib_def [symmetric]
      base_def [symmetric] hdr
    by (simp add: inode_record_def)
qed

lemma length_strncpy_bytes [simp]: "length (strncpy_bytes s n) = n"
  by (simp add: strncpy_bytes_def)

lemma length_dirent_record [simp]: "length (dirent_record e n name) = 62"
  by (simp add: dirent_record_def)

lemma length_inode_record [simp]: "length bs \<le> 10 \<Longrightarrow> length (inode_record e n ty sz bs) = 128"
  by (simp add: inode_record_def)


lemma format_inode_block_eq:
  "format_inode_block e =
     replicate 128 0 @ inode_record e 1 MESAFS_TYPE_DIR 0 [10] @ replicate 3840 0"
  by (simp add: format_inode_block_def put32_def [of e "replicate 4096 0"]
        memcpy_at_def [of "replicate 4096 0"] put_skip put_Cons put_0 inode_record_def
        replicate_add [symmetric] del: replicate_add)

lemma dec32_zero [simp]: "dec32 e [0, 0, 0, 0] = 0"
  by (cases e) (simp_all add: dec32_def)



subsection \<open>The slot scan\<close>


lemma find_free_slot_None:
  "find_free_slot e blk i = None \<Longrightarrow> i \<le> j \<Longrightarrow> j < 64 \<Longrightarrow> get32 e blk (j * 64) \<noteq> 0"
proof (induction e blk i rule: find_free_slot.induct)
  case (1 e blk i)
  from "1.prems" have i: "i < 64" by simp
  from "1.prems"(1) i have nz: "get32 e blk (i * 64) \<noteq> 0"
    by (subst (asm) find_free_slot.simps) (auto split: if_splits)
  with "1.prems"(1) i have "find_free_slot e blk (Suc i) = None"
    by (subst (asm) find_free_slot.simps) simp
  with "1.IH" i nz "1.prems" show ?case
    by (cases "j = i") auto
qed


subsection \<open>The injector on a laid-out volume\<close>

lemma free_bits_valid_magic:
  assumes "4 \<le> length blk" and "get32 e blk sb_magic = MESAFS_MAGIC"
  shows "free_bits blk 11 29 = magic_free e"
proof -
  have "free_bits blk 11 29 = free_bits (take 4 blk) 11 29"
    by (simp add: free_bits_take)
  also have "take 4 blk = enc32 e MESAFS_MAGIC"
    using assms by (rule get32_magic_bytes)
  finally show ?thesis
    by (simp add: free_bits_magic magic_free_def)
qed

lemma length_magic_free: "10 \<le> length (magic_free e)"
  by (cases e) (simp_all add: magic_free_def)

lemma free_bits_range: "j \<in> set (free_bits blk lo hi) \<Longrightarrow> lo \<le> j \<and> j < hi \<and> \<not> bitmap_test blk j"
  by (auto simp: free_bits_def)


lemma alloc_blocks_valid_magic:
  assumes len: "length blk = 4096" and magic: "get32 e blk sb_magic = MESAFS_MAGIC"
    and needed: "needed \<le> 10"
  shows "alloc_blocks e total_blocks needed 11 (blk, sb, []) =
           (let new = take needed (free_bits blk 11 (min total_blocks 29))
            in Inr (fold (\<lambda>j b. bitmap_set b j) new blk,
                    (dec_free_blocks e ^^ length new) sb, map of_nat new))"
proof (cases "29 \<le> total_blocks")
  case True
  have cnt: "needed - length ([] :: u32 list) \<le> length (free_bits blk 11 29)"
    using needed length_magic_free [of e] len magic by (simp add: free_bits_valid_magic)
  have "alloc_blocks e total_blocks needed 11 (blk, sb, [])
          = alloc_blocks e 29 needed 11 (blk, sb, [])"
    using True len cnt by (intro alloc_blocks_enough) simp_all
  then show ?thesis
    using True len by (simp add: alloc_blocks_first_fit min_def)
next
  case False
  then show ?thesis
    using len by (simp add: alloc_blocks_first_fit min_def)
qed

lemma drop_fold_bitmap_set:
  "\<forall>j\<in>set new. j < 8 * m \<Longrightarrow> drop m (fold (\<lambda>j b. bitmap_set b j) new blk) = drop m blk"
proof (induction new arbitrary: blk)
  case Nil
  then show ?case by simp
next
  case (Cons j new)
  then have "j div 8 < m" by auto
  with Cons show ?case
    by (simp add: bitmap_set_def [of blk])
qed

lemma length_fold_bitmap_set [simp]:
  "length (fold (\<lambda>j b. bitmap_set b j) new blk) = length blk"
  by (induction new arbitrary: blk) simp_all

lemma unat_inode_block_num: "unat (inode_block_num n) = 2 + unat n div 32"
proof -
  have lt: "unat n < 4294967296"
    using unsigned_less [of n, where ?'a = nat] by simp
  have dv: "unat (n div 32) = unat n div 32"
    by (simp add: unat_div)
  have "unat (2 :: u32) + unat (n div 32) < 2 ^ LENGTH(32)"
    using lt by (simp add: dv)
  then have "unat (2 + n div 32) = unat (2 :: u32) + unat (n div 32)"
    by (rule unat_add_lem [THEN iffD1])
  then show ?thesis
    by (simp add: inode_block_num_def dv)
qed

lemma unat_inode_index: "unat (inode_index n) = unat n mod 32"
  by (simp add: inode_index_def unat_mod)

lemma unat_of_nat32: "i < 4294967296 \<Longrightarrow> unat (of_nat i :: u32) = i"
  by (simp add: unat_of_nat)

lemma volume_okD:
  assumes "volume_ok e d"
  shows "b \<le> 10 \<Longrightarrow> length (d b) = 4096"
    and "get32 e (d 0) 0 = MESAFS_MAGIC"
    and "get32 e (d 0) 20 = 256"
    and "get32 e (d 2) 144 = 10"
    and "get32 e (d 0) 28 = 1"
  using assms by (simp_all add: volume_ok_def)

lemma length_injected_superblock [simp]:
  "512 \<le> length blk \<Longrightarrow> length (injected_superblock e blk k) = 512"
  by (simp add: injected_superblock_def)


text \<open>Payload and inode record leave blocks 0, 1 and 10 and the root inode alone.\<close>

lemma write_inode_frame:
  fixes f :: "u8 list" and file_size :: nat
  assumes ok: "volume_ok e d" and bs: "\<forall>b\<in>set bs. 11 \<le> unat b" and nb: "length bs \<le> 10"
    and i: "2 \<le> i" "i < 256"
  defines "d2 \<equiv> write_inode e (write_payload f d 0 bs) (of_nat i) file_size bs"
  shows "d2 0 = d 0" and "d2 1 = d 1" and "d2 10 = d 10"
    and "get32 e (d2 2) 144 = 10"
    and "b \<le> 10 \<Longrightarrow> length (d2 b) = 4096"
proof -
  let ?d1 = "write_payload f d 0 bs"
  let ?n = "of_nat i :: u32"
  have un: "unat ?n = i"
    using i by (simp add: unat_of_nat32)
  have ib: "unat (inode_block_num ?n) = 2 + i div 32"
    by (simp add: unat_inode_block_num un)
  have ib_rng: "2 + i div 32 \<le> 9"
    using i by simp
  have base: "unat (inode_index ?n) * 128 = i mod 32 * 128"
    by (simp add: unat_inode_index un)
  have low: "\<And>b. b \<le> 10 \<Longrightarrow> ?d1 b = d b"
    using bs by (intro write_payload_other) auto
  have len1: "length (?d1 (unat (inode_block_num ?n))) = 4096"
    using ib_rng by (simp add: ib low volume_okD [OF ok])
  have d2: "d2 = ?d1(2 + i div 32 :=
               take (i mod 32 * 128) (?d1 (2 + i div 32))
                 @ inode_record e ?n MESAFS_TYPE_FILE (of_nat file_size) bs
                 @ drop (i mod 32 * 128 + 128) (?d1 (2 + i div 32)))"
    unfolding d2_def using write_inode_eq [where d = "?d1" and n = "?n" and bs = bs and e = e
        and file_size = file_size, OF len1 nb]
    by (simp add: ib base)
  show "d2 0 = d 0" "d2 1 = d 1" "d2 10 = d 10"
    using ib_rng by (simp_all add: d2 low)
  have m: "i mod 32 * 128 + 128 \<le> 4096"
  proof -
    have "i mod 32 < 32" by simp
    then show ?thesis by linarith
  qed
  show "b \<le> 10 \<Longrightarrow> length (d2 b) = 4096"
    using nb m by (simp add: d2 low volume_okD [OF ok])
  show "get32 e (d2 2) 144 = 10"
  proof (cases "i div 32 = 0")
    case True
    then have "256 \<le> i mod 32 * 128"
      using i by simp
    then show ?thesis
      using True m by (simp add: d2 low get32_append_left get32_take volume_okD [OF ok])
  next
    case False
    then show ?thesis
      by (simp add: d2 low volume_okD [OF ok])
  qed
qed

lemma blocks_needed_le:
  "\<not> blocks_needed n > 10 \<Longrightarrow> unat (blocks_needed n) \<le> 10"
  by (simp add: word_less_nat_alt not_less)


lemma inject_file_volume:
  fixes d :: disk and f :: "u8 list"
  assumes ok: "volume_ok e d"
  defines "needed \<equiv> unat (blocks_needed (length f))"
  defines "new \<equiv> take needed (free_bits (d 0) 11 (min (unat (get32 e (d 0) sb_total_blocks)) 29))"
  defines "bs \<equiv> map of_nat new :: u32 list"
  shows "inject_file e d f p =
     (if blocks_needed (length f) > 10 then (Inl FileTooLarge, d)
      else case scan_inodes (d 1) 256 2 of
          Inl err \<Rightarrow> (Inl err, d)
        | Inr None \<Rightarrow> (Inl InsufficientInodes, d)
        | Inr (Some i) \<Rightarrow>
            if length new < needed then (Inl InsufficientBlocks, d)
            else
              let d2 = write_inode e (write_payload f d 0 bs) (of_nat i) (length f) bs
              in (case find_free_slot e (d 10) 0 of
                    None \<Rightarrow> (Inl DirectoryFull, d2)
                  | Some k \<Rightarrow>
                      (Inr \<lparr>rep_inode = of_nat i, rep_blocks = bs, rep_size = length f\<rparr>,
                       d2(10 := write_dirent e (d 10) k (of_nat i) (dest_filename p),
                          0 := injected_superblock e (d 0) needed @ drop 512 (d 0),
                          1 := bitmap_set (d 1) i))))"
proof (cases "blocks_needed (length f) > 10")
  case True
  then show ?thesis
    using volume_okD(2) [OF ok] by (simp add: inject_file_def read_block_def Let_def)
next
  case big: False
  then have needed: "needed \<le> 10"
    unfolding needed_def by (rule blocks_needed_le)
  have len0: "length (d 0) = 4096" and len1: "length (d 1) = 4096"
    by (simp_all add: volume_okD [OF ok])
  have ti: "unat (get32 e (take 512 (d 0)) sb_total_inodes) = 256"
    by (simp add: get32_take volume_okD [OF ok])
  show ?thesis
  proof (cases "scan_inodes (d 1) 256 2")
    case (Inl err)
    then show ?thesis
      using big volume_okD(2) [OF ok] ti
      by (simp add: inject_file_def read_block_def Let_def alloc_inode_def)
  next
    case (Inr r)
    show ?thesis
    proof (cases r)
      case None
      then show ?thesis
        using big Inr volume_okD(2) [OF ok]
        by (simp add: inject_file_def read_block_def Let_def alloc_inode_def ti)
    next
      case (Some i)
      have i: "2 \<le> i" "i < 256"
        using scan_inodes_Some [of "d 1" 256 2 i] Inr Some by simp_all
      let ?sbi = "put32 e (take 512 (d 0)) sb_free_inodes (get32 e (take 512 (d 0)) sb_free_inodes - 1)"
      have ai: "alloc_inode e (d 1) (take 512 (d 0)) = Inr (of_nat i, bitmap_set (d 1) i, ?sbi)"
        using Inr Some by (simp add: alloc_inode_def ti)
      have tb: "get32 e ?sbi sb_total_blocks = get32 e (d 0) sb_total_blocks"
        using len0 by (simp add: get32_put32_other get32_take)
      have ab: "alloc_blocks e (unat (get32 e (d 0) sb_total_blocks)) needed 11 (d 0, ?sbi, [])
                  = Inr (fold (\<lambda>j b. bitmap_set b j) new (d 0),
                         (dec_free_blocks e ^^ length new) ?sbi, bs)"
        using alloc_blocks_valid_magic [OF len0 volume_okD(2) [OF ok] needed]
        by (simp add: Let_def new_def bs_def)
      show ?thesis
      proof (cases "length new < needed")
        case True
        then show ?thesis
          using big Inr Some volume_okD(2) [OF ok] ai tb ab
          by (simp add: inject_file_def read_block_def Let_def
                needed_def [symmetric] bs_def)
      next
        case False
        then have ln: "length new = needed"
          unfolding new_def by simp
        have rng: "\<forall>j\<in>set new. 11 \<le> j \<and> j < 29"
          unfolding new_def by (auto dest!: in_set_takeD free_bits_range)
        then have bs11: "\<forall>b\<in>set bs. 11 \<le> unat b"
          unfolding bs_def by (auto simp: unat_of_nat32)
        have lbs: "length bs = needed"
          using ln by (simp add: bs_def)
        have nb: "length bs \<le> 10"
          using lbs needed by simp
        let ?d2 = "write_inode e (write_payload f d 0 bs) (of_nat i) (length f) bs"
        note fr = write_inode_frame [where f = f and file_size = "length f", OF ok bs11 nb i]
        have blk0: "memcpy_at (fold (\<lambda>j b. bitmap_set b j) new (d 0)) 0
                      ((dec_free_blocks e ^^ length new) ?sbi)
                    = injected_superblock e (d 0) needed @ drop 512 (d 0)"
        proof -
          have "\<forall>j\<in>set new. j < 8 * 512"
            using rng by auto
          then have "drop 512 (fold (\<lambda>j b. bitmap_set b j) new (d 0)) = drop 512 (d 0)"
            by (rule drop_fold_bitmap_set)
          then show ?thesis
            using len0 by (simp add: memcpy_at_0 injected_superblock_def ln)
        qed
        show ?thesis
          using big Inr Some False volume_okD(2) [OF ok] ai tb ab fr(1-4) blk0 lbs
          by (simp add: inject_file_def read_block_def write_block_def Let_def
                needed_def [symmetric] split: option.split)
      qed
    qed
  qed
qed

subsection \<open>What a run of the injector leaves behind\<close>


lemma unat_blocks_needed:
  assumes "n \<le> 40960"
  shows "unat (blocks_needed n) = (if n = 0 then 1 else (n + 4095) div 4096)"
proof -
  define q where "q = (n + 4096 - 1) div 4096"
  have q: "q = (n + 4095) div 4096"
    by (simp add: q_def)
  have q10: "q \<le> 10"
    using assms unfolding q by simp
  then have u: "unat (of_nat q :: u32) = q"
    by (simp add: unat_of_nat32)
  have "(of_nat q = (0 :: u32)) = (unat (of_nat q :: u32) = 0)"
    by (simp add: unat_eq_0)
  also have "\<dots> = (q = 0)"
    by (simp add: u)
  also have "\<dots> = (n = 0)"
    unfolding q by (auto simp: div_eq_0_iff)
  finally have z: "(of_nat q = (0 :: u32)) = (n = 0)" .
  have "blocks_needed n = (if of_nat q = (0 :: u32) then 1 else of_nat q)"
    unfolding blocks_needed_def q_def Let_def by (rule refl)
  then show ?thesis
    using u z q by auto
qed


lemma blocks_needed_small: "n \<le> 40960 \<Longrightarrow> \<not> blocks_needed n > 10"
proof -
  assume n: "n \<le> 40960"
  then have "(n + 4095) div 4096 \<le> 10"
    by simp
  with n have "unat (blocks_needed n) \<le> 10"
    by (simp add: unat_blocks_needed)
  then show ?thesis
    by (simp add: word_less_nat_alt not_less)
qed



lemma get32_inode_record:
  "get32 e (inode_record e n ty sz bs @ post) ino_inode_num = n"
  "get32 e (inode_record e n ty sz bs @ post) ino_size = sz"
  "get32 e (inode_record e n ty sz bs @ post) ino_blocks_used = of_nat (length bs)"
  "j < length bs \<Longrightarrow> get32 e (inode_record e n ty sz bs @ post) (ino_direct_blocks + 4 * j) = bs ! j"
  by (simp_all add: inode_record_def get32_skip get32_Cons get32_concat_enc32)

lemma get8_inode_record:
  "get8 (inode_record e n ty sz bs @ post) ino_type = ty"
  "get8 (inode_record e n ty sz bs @ post) ino_flags = MESAFS_FLAG_USED"
  by (simp_all add: inode_record_def get8_def nth_append)










subsection \<open>The formatted volume\<close>

lemma length_format_inode_bitmap [simp]: "length format_inode_bitmap = 4096"
  by (simp add: format_inode_bitmap_def)

lemma bitmap_test_zero [simp]: "b div 8 < n \<Longrightarrow> \<not> bitmap_test (replicate n 0) b"
  by (simp add: bitmap_test_def)

lemma bitmap_test_format_inode_bitmap:
  "b < 32768 \<Longrightarrow> bitmap_test format_inode_bitmap b = (b < 2)"
  by (auto simp: format_inode_bitmap_def bitmap_test_set)

lemma format_blocks:
  "mesafs_format e s d 0 = format_superblock e (s div 8) @ replicate 3584 0"
  "mesafs_format e s d 1 = format_inode_bitmap"
  "mesafs_format e s d (Suc 0) = format_inode_bitmap"
  "mesafs_format e s d 2 = format_inode_block e"
  "mesafs_format e s d 10 = zero_block"
  "10 < b \<Longrightarrow> mesafs_format e s d b = d b"
  by (simp_all add: mesafs_format_eq format_block0_eq)

lemma length_format_blocks: "b \<le> 10 \<Longrightarrow> length (mesafs_format e s d b) = 4096"
proof -
  assume "b \<le> 10"
  then consider "b = 0" | "b = 1" | "b = 2" | "b = 3" | "b = 4" | "b = 5" | "b = 6" | "b = 7"
    | "b = 8" | "b = 9" | "b = 10"
    by (auto simp: le_Suc_eq numeral_eq_Suc)
  then show ?thesis
    by cases (simp_all add: mesafs_format_eq format_block0_eq format_inode_block_eq)
qed

lemma volume_ok_format: "volume_ok e (mesafs_format e s d)"
  unfolding volume_ok_def
  by (simp add: length_format_blocks format_blocks get32_format_superblock
        format_inode_block_eq get32_skip get32_inode_record(4) [where j = 0, simplified])

lemma scan_inodes_first:
  "\<not> bitmap_test bm n \<Longrightarrow> n < total_inodes \<Longrightarrow> total_inodes \<le> 8 * length bm \<Longrightarrow> i \<le> n \<Longrightarrow>
   (\<forall>m. i \<le> m \<and> m < n \<longrightarrow> bitmap_test bm m) \<Longrightarrow>
   scan_inodes bm total_inodes i = Inr (Some n)"
proof (induction bm total_inodes i rule: scan_inodes.induct)
  case (1 bm total_inodes i)
  have inb: "\<not> length bm \<le> i div 8"
    using "1.prems" by auto
  show ?case
  proof (cases "i = n")
    case True
    with "1.prems" inb show ?thesis
      by (subst scan_inodes.simps) simp
  next
    case False
    with "1.prems" have "i < total_inodes" "bitmap_test bm i" "Suc i \<le> n"
      by auto
    with "1.IH" "1.prems" inb show ?thesis
      by (subst scan_inodes.simps) simp
  qed
qed

lemma scan_inodes_format: "scan_inodes format_inode_bitmap 256 2 = Inr (Some 2)"
  by (rule scan_inodes_first) (simp_all add: bitmap_test_format_inode_bitmap)


subsection \<open>The listing\<close>









subsection \<open>The failure exits\<close>

lemma scan_inodes_Inl: "scan_inodes bm total_inodes i = Inl err \<Longrightarrow> err = OutOfBounds"
proof (induction bm total_inodes i rule: scan_inodes.induct)
  case (1 bm total_inodes i)
  from "1.prems" show ?case
    by (subst (asm) scan_inodes.simps) (auto split: if_splits dest: "1.IH" simp: not_le)
qed

lemma alloc_blocks_Inl:
  "alloc_blocks e total_blocks needed i st = Inl err \<Longrightarrow> err = OutOfBounds"
proof (induction e total_blocks needed i st rule: alloc_blocks.induct)
  case (1 e total_blocks needed i blk sb_copy data_blocks)
  show ?case
  proof (cases "i < total_blocks \<and> length data_blocks < needed")
    case False
    with "1.prems" show ?thesis
      by (subst (asm) alloc_blocks.simps) auto
  next
    case go: True
    show ?thesis
    proof (cases "length blk \<le> i div 8")
      case True
      with go "1.prems" show ?thesis
        by (subst (asm) alloc_blocks.simps) auto
    next
      case inb: False
      show ?thesis
      proof (cases "bitmap_test blk i")
        case True
        with go inb "1.prems" "1.IH"(2) show ?thesis
          by (subst (asm) alloc_blocks.simps) auto
      next
        case False
        with go inb "1.prems" "1.IH"(1) show ?thesis
          by (subst (asm) alloc_blocks.simps) auto
      qed
    qed
  qed
qed

lemma alloc_inode_Inl:
  "alloc_inode e bm sb = Inl err \<Longrightarrow> err = OutOfBounds \<or> err = InsufficientInodes"
  by (auto simp: alloc_inode_def split: sum.splits option.splits dest: scan_inodes_Inl)

lemma inject_file_InsufficientBlocks:
  assumes "inject_file e d f p = (Inl InsufficientBlocks, d')"
  shows "d' = d"
    and "\<exists>new_inode bm sb. alloc_inode e (read_block d 1) (take 512 (read_block d 0))
            = Inr (new_inode, bm, sb)"
  using assms
  by (auto simp: inject_file_def Let_def
      split: if_splits sum.splits prod.splits option.splits
      dest: alloc_inode_Inl alloc_blocks_Inl)


subsection \<open>The freshly formatted volume\<close>

text \<open>
  C1. The claim asks that, after the formatter has run, the superblock carries the magic
  constant, \<open>free_blocks = B - 11\<close> and \<open>free_inodes = 254\<close>, and that bits 0 to 10 of
  the block bitmap are set and no other. The counters and the magic are as claimed, but
  the formatter copies the superblock over the first 512 bytes of the block it has just
  marked, so the bitmap bits of blocks 0 to 4095 are the bits of the superblock record:
  whatever the partition, bit 1 is clear and bit 14 is set, in either byte order.
\<close>

theorem format_block_bitmap_overlaid:
  "(let blk = read_block (mesafs_format e part_sectors d) MESAFS_BLOCK_BITMAP_BLOCK
    in get32 e blk sb_magic = MESAFS_MAGIC
       \<and> get32 e blk sb_free_blocks = part_sectors div 8 - 11
       \<and> get32 e blk sb_free_inodes = 254
       \<and> bitmap_test blk 1 = False
       \<and> bitmap_test blk 14 = True)"
  by (cases e) (simp_all add: format_block0_read get32_format_superblock bitmap_test_def
      nth_append format_superblock_byte0)

text \<open>
  C10. On a partition of fewer than 88 sectors the block count is at most 10, the
  formatter still writes a superblock, and the free-block count in it is
  \<open>total_blocks - 10 - 1\<close> taken modulo \<open>2 ^ 32\<close>, that is \<open>2 ^ 32 - 11 + total_blocks\<close>.
\<close>

theorem format_small_partition_wraps:
  assumes "part_sectors < 88"
  shows "(let blk = read_block (mesafs_format e part_sectors d) 0;
              total_blocks = part_sectors div 8
          in get32 e blk sb_magic = MESAFS_MAGIC
             \<and> get32 e blk sb_total_blocks = total_blocks
             \<and> unat total_blocks \<le> 10
             \<and> get32 e blk sb_free_blocks = total_blocks - 10 - 1
             \<and> unat (get32 e blk sb_free_blocks) = 2 ^ 32 - 11 + unat total_blocks)"
proof -
  have tb: "unat (part_sectors div 8) \<le> 10"
    using assms by (simp add: unat_div word_less_nat_alt)
  have "unat (part_sectors div 8 - 11) = 2 ^ 32 - 11 + unat (part_sectors div 8)"
    using tb by (simp add: unat_sub_if_size word_size)
  then show ?thesis
    using tb by (simp add: format_block0_read get32_format_superblock)
qed

theorem format_small_partition_wraps_witness:
  "(80 :: u32) < 88
   \<and> unat (get32 Little (read_block (mesafs_format Little 80 blank_disk) 0) sb_free_blocks)
       = 4294967295"
proof -
  have h: "(80 :: u32) < 88" by simp
  from format_small_partition_wraps [OF h, of Little blank_disk]
  have "unat (get32 Little (read_block (mesafs_format Little 80 blank_disk) 0) sb_free_blocks)
          = 2 ^ 32 - 11 + unat ((80 :: u32) div 8)"
    unfolding Let_def by blast
  then show ?thesis using h by simp
qed

subsection \<open>The place of an inode in the table\<close>


subsection \<open>Rejected and failed injections\<close>

lemma volume_ok_examples: "volume_ok Little volume_100" "volume_ok Little volume_11"
  by (simp_all add: volume_100_def volume_11_def volume_ok_format)

lemma total_blocks_examples:
  "unat (get32 Little (volume_100 0) sb_total_blocks) = 100"
  "unat (get32 Little (volume_11 0) sb_total_blocks) = 11"
  by (simp_all add: volume_100_def volume_11_def format_blocks get32_format_superblock)

lemma scan_inodes_volume_11: "scan_inodes (volume_11 1) 256 2 = Inr (Some 2)"
  unfolding volume_11_def format_blocks by (rule scan_inodes_format)

lemma inject_volume_11:
  "inject_file Little volume_11 [65] ''/a'' = (Inl InsufficientBlocks, volume_11)"
  unfolding inject_file_volume [OF volume_ok_examples(2)] Let_def scan_inodes_volume_11
    total_blocks_examples
  by (simp add: blocks_needed_small free_bits_def unat_blocks_needed)



text \<open>
  C4 as stated fails. On the formatted partition of 11 blocks an injection claims inode 2
  in memory and then finds no data block; it ends with \<open>InsufficientBlocks\<close>, and on disk
  the bit of inode 2 is clear and the free-inode counter is still 254.
\<close>

theorem inject_insufficient_blocks_counterexample:
  "fst (inject_file Little volume_11 [65] ''/a'') = Inl InsufficientBlocks
   \<and> scan_inodes (read_block volume_11 MESAFS_INODE_BITMAP_BLOCK) 256 2 = Inr (Some 2)
   \<and> bitmap_test (read_block (snd (inject_file Little volume_11 [65] ''/a''))
         MESAFS_INODE_BITMAP_BLOCK) 2 = False
   \<and> get32 Little (read_block (snd (inject_file Little volume_11 [65] ''/a''))
         MESAFS_BLOCK_BITMAP_BLOCK) sb_free_inodes = 254"
  using scan_inodes_volume_11
  by (simp add: inject_volume_11 read_block_def)
     (simp add: volume_11_def format_blocks get32_format_superblock
        bitmap_test_format_inode_bitmap)

text \<open>
  C4, amended. When the run ends with \<open>InsufficientBlocks\<close>, inode allocation had
  succeeded on the in-memory copies, and the storage is exactly as it was before the
  run: the inode bitmap and the free-inode counter on disk are unchanged, and no inode
  record has been written.
\<close>

theorem inject_insufficient_blocks_no_change:
  assumes "inject_file e d file_data dest_path = (Inl InsufficientBlocks, d')"
  shows "d' = d
         \<and> (\<exists>new_inode bm sb.
               alloc_inode e (read_block d MESAFS_INODE_BITMAP_BLOCK)
                 (take sizeof_superblock (read_block d MESAFS_BLOCK_BITMAP_BLOCK))
               = Inr (new_inode, bm, sb))"
  using inject_file_InsufficientBlocks [OF assms] by simp

theorem inject_insufficient_blocks_no_change_witness:
  "inject_file Little volume_11 [65] ''/a'' = (Inl InsufficientBlocks, volume_11)
   \<and> (\<exists>new_inode bm sb.
         alloc_inode Little (read_block volume_11 MESAFS_INODE_BITMAP_BLOCK)
           (take sizeof_superblock (read_block volume_11 MESAFS_BLOCK_BITMAP_BLOCK))
         = Inr (new_inode, bm, sb))"
  using inject_insufficient_blocks_no_change [OF inject_volume_11] inject_volume_11
  by simp

subsection \<open>Successful injections\<close>













subsection \<open>Repeated injections and the full directory\<close>

















end
